theory Spec2Isabelle
  imports Main
begin

section \<open>The account service of the user backend\<close>

text \<open>
  This theory embeds \<^verbatim>\<open>src/users/users.service.ts\<close> (class \<^verbatim>\<open>UsersService\<close>).
  Every method of the service is a function from the store it reads to its outcome and
  the store it leaves behind; an exception thrown by the method is the \<open>Inl\<close> branch of
  the outcome.

  The service calls collaborators whose code is not part of the sources at hand: the
  bcrypt library, the lower-case folding of the JavaScript runtime, the \<^verbatim>\<open>LIKE\<close> operator
  of the database engine, the title and slug helpers of \<^verbatim>\<open>CommonService\<close>, the entity
  class with its column defaults, the ORM repository and the cache manager. The first
  five are parameters of the model (record \<open>collab\<close>), so every theorem stated for a
  collaborator record \<open>E\<close> holds for whatever they compute. The repository and the cache
  are modelled as a table of rows and as a function from keys to cached values.
\<close>

subsection \<open>Data model\<close>

text \<open>The four HTTP exceptions the service throws, each with its message, and the error
  of the storage layer when a unique column would hold a value twice.\<close>

datatype exn =
    ConflictException string
  | NotFoundException string
  | UnauthorizedException string
  | BadRequestException string
  | UniqueConstraintViolation

text \<open>The embedded credentials value: the version counter and the archived hash.\<close>

record credentials =
  version :: int
  lastPassword :: string

text \<open>
  The user entity. The two status enums and the provider enum are declared outside the
  sources at hand, so the types of their tags are the type parameters \<open>'s\<close> and \<open>'p\<close>.
\<close>

record ('s, 'p) user =
  id_user :: int
  email :: string
  username :: string
  name :: string
  password :: string
  confirmed :: bool
  onlineStatus :: 's
  defaultStatus :: 's
  authProviders :: "'p list"
  picture :: "string option"
  credentials :: credentials

text \<open>The users table: its rows in insertion order and the next value of the id sequence.\<close>

record ('s, 'p) store =
  rows :: "('s, 'p) user list"
  nextId :: int

text \<open>A value read from the cache: \<^verbatim>\<open>undefined\<close>, \<^verbatim>\<open>null\<close> or a stored value.\<close>

datatype 'd cached = Undefined | Null | Cached 'd

type_synonym 'd cache = "string \<Rightarrow> 'd cached"

text \<open>
  The collaborators taken as parameters: \<^verbatim>\<open>formatTitle\<close> and \<^verbatim>\<open>generatePointSlug\<close> of
  \<^verbatim>\<open>CommonService\<close>; \<^verbatim>\<open>String.prototype.toLowerCase\<close> of the JavaScript runtime, which
  folds every cased letter of Unicode; the operator \<^verbatim>\<open>LIKE\<close> of the database engine
  (pattern first, value second), whose wildcards and whose treatment of case are the
  engine's; bcrypt's \<^verbatim>\<open>hash(data, rounds)\<close>, whose third argument here is the salt the
  library draws at random, and \<^verbatim>\<open>compare(data, encrypted)\<close>; and the entity as its
  constructor leaves it, which supplies every column \<^verbatim>\<open>create\<close> does not set.
\<close>

record ('s, 'p) collab =
  formatTitle :: "string \<Rightarrow> string"
  generatePointSlug :: "string \<Rightarrow> string"
  toLowerCase :: "string \<Rightarrow> string"
  like :: "string \<Rightarrow> string \<Rightarrow> bool"
  hash :: "string \<Rightarrow> nat \<Rightarrow> nat \<Rightarrow> string"
  compare :: "string \<Rightarrow> string \<Rightarrow> bool"
  newEntity :: "('s, 'p) user"

subsection \<open>Strings\<close>

text \<open>A non-negative integer in a template literal: its decimal digits.\<close>

fun show_nat :: "nat \<Rightarrow> string" where
  "show_nat n =
     (if n < 10 then [char_of (48 + n)] else show_nat (n div 10) @ [char_of (48 + n mod 10)])"

declare show_nat.simps [simp del]

definition show_int :: "int \<Rightarrow> string" where
  "show_int i = (if i < 0 then CHR ''-'' # show_nat (nat (- i)) else show_nat (nat i))"

subsection \<open>The repository\<close>

text \<open>
  \<^verbatim>\<open>usersRepository.findOne(where)\<close> and \<^verbatim>\<open>usersRepository.count(where)\<close>, the filter
  object being a predicate on rows. \<^verbatim>\<open>findOne\<close> yields \<^verbatim>\<open>null\<close> (here \<open>None\<close>) when no row
  matches.
\<close>

definition findOne :: "(('s, 'p) user \<Rightarrow> bool) \<Rightarrow> ('s, 'p) store \<Rightarrow> ('s, 'p) user option" where
  "findOne w db = find w (rows db)"

definition count_rows :: "(('s, 'p) user \<Rightarrow> bool) \<Rightarrow> ('s, 'p) store \<Rightarrow> nat" where
  "count_rows w db = length (filter w (rows db))"

text \<open>
  The filter \<^verbatim>\<open>{ username: { $like: `${pointSlug}%` } }\<close>: the usernames the engine's
  \<^verbatim>\<open>LIKE\<close> matches against the pattern made of the slug and a percent sign.
\<close>

definition username_like :: "('s, 'p) collab \<Rightarrow> string \<Rightarrow> ('s, 'p) user \<Rightarrow> bool" where
  "username_like E pointSlug u = like E (pointSlug @ ''%'') (username u)"

text \<open>
  Modelled from the spec: the unique columns of the users table, which the entity class
  (not among the sources) declares. The spec has the email and the username unique. A row
  may be written when no other row holds its email or its username.
\<close>

definition unique_ok :: "('s, 'p) user \<Rightarrow> ('s, 'p) user list \<Rightarrow> bool" where
  "unique_ok u others =
     (list_all (\<lambda>r. email r \<noteq> email u) others \<and> list_all (\<lambda>r. username r \<noteq> username u) others)"

text \<open>
  Modelled from the spec: \<^verbatim>\<open>CommonService.saveEntity(repository, entity, isNew)\<close>, which is
  not among the sources. The spec has every mutation re-persisted as a whole through a
  generic save, and a violation of a unique column surfaced as an error of the storage
  layer. A new entity is inserted under the next id of the sequence; a managed entity
  replaces the row that has its id.
\<close>

definition saveEntity ::
  "('s, 'p) store \<Rightarrow> ('s, 'p) user \<Rightarrow> bool \<Rightarrow> exn + (('s, 'p) user \<times> ('s, 'p) store)" where
  "saveEntity db entity isNew =
     (if isNew then
        (if unique_ok entity (rows db)
         then (let saved = entity\<lparr>id_user := nextId db\<rparr>
               in Inr (saved, db\<lparr>rows := rows db @ [saved], nextId := nextId db + 1\<rparr>))
         else Inl UniqueConstraintViolation)
      else
        (if unique_ok entity (filter (\<lambda>r. id_user r \<noteq> id_user entity) (rows db))
         then Inr (entity,
                   db\<lparr>rows := map (\<lambda>r. if id_user r = id_user entity then entity else r) (rows db)\<rparr>)
         else Inl UniqueConstraintViolation))"

text \<open>
  Modelled from the spec: \<^verbatim>\<open>CommonService.removeEntity(repository, entity)\<close>, which is not
  among the sources. The spec has the user removed on account deletion: a hard delete of
  its row.
\<close>

definition removeEntity :: "('s, 'p) store \<Rightarrow> ('s, 'p) user \<Rightarrow> ('s, 'p) store" where
  "removeEntity db entity = db\<lparr>rows := filter (\<lambda>r. id_user r \<noteq> id_user entity) (rows db)\<rparr>"

text \<open>
  Modelled from the spec: \<^verbatim>\<open>CommonService.checkEntityExistence(entity, name)\<close>, which is not
  among the sources. The spec has a generic lookup of an absent entity fail with
  not-found; the message is the one the tests of the service expect (``User not found'').
\<close>

definition checkEntityExistence :: "'a option \<Rightarrow> string \<Rightarrow> exn + 'a" where
  "checkEntityExistence entity nm =
     (case entity of None \<Rightarrow> Inl (NotFoundException (nm @ '' not found'')) | Some e \<Rightarrow> Inr e)"

text \<open>The invariant the storage layer keeps: ids, emails and usernames are unique, and
  every id was drawn from the sequence.\<close>

definition wf_store :: "('s, 'p) store \<Rightarrow> bool" where
  "wf_store db =
     (distinct (map id_user (rows db)) \<and> distinct (map email (rows db))
      \<and> distinct (map username (rows db)) \<and> list_all (\<lambda>r. id_user r < nextId db) (rows db))"

subsection \<open>The service\<close>

text \<open>\<^verbatim>\<open>throwUnauthorizedException\<close>: an absent user is reported as invalid credentials.\<close>

definition throwUnauthorizedException :: "'a option \<Rightarrow> exn + 'a" where
  "throwUnauthorizedException user =
     (case user of None \<Rightarrow> Inl (UnauthorizedException ''Invalid credentials'') | Some u \<Rightarrow> Inr u)"

definition findOneById :: "('s, 'p) store \<Rightarrow> int \<Rightarrow> exn + ('s, 'p) user" where
  "findOneById db i = checkEntityExistence (findOne (\<lambda>r. id_user r = i) db) ''User''"

text \<open>\<^verbatim>\<open>findOneByUsername(username, forAuth = false)\<close>, \<^verbatim>\<open>findOneByEmail\<close> and
  \<^verbatim>\<open>uncheckedUserByEmail\<close>.\<close>

definition findOneByUsername ::
  "('s, 'p) collab \<Rightarrow> ('s, 'p) store \<Rightarrow> string \<Rightarrow> bool \<Rightarrow> exn + ('s, 'p) user" where
  "findOneByUsername E db un forAuth =
     (let user = findOne (\<lambda>r. username r = toLowerCase E un) db
      in if forAuth then throwUnauthorizedException user
         else checkEntityExistence user ''User'')"

definition findOneByEmail ::
  "('s, 'p) collab \<Rightarrow> ('s, 'p) store \<Rightarrow> string \<Rightarrow> exn + ('s, 'p) user" where
  "findOneByEmail E db em =
     throwUnauthorizedException (findOne (\<lambda>r. email r = toLowerCase E em) db)"

definition uncheckedUserByEmail ::
  "('s, 'p) collab \<Rightarrow> ('s, 'p) store \<Rightarrow> string \<Rightarrow> ('s, 'p) user option" where
  "uncheckedUserByEmail E db em = findOne (\<lambda>r. email r = toLowerCase E em) db"

definition findOneByCredentials :: "('s, 'p) store \<Rightarrow> int \<Rightarrow> int \<Rightarrow> exn + ('s, 'p) user" where
  "findOneByCredentials db i v =
     (case throwUnauthorizedException (findOne (\<lambda>r. id_user r = i) db) of
        Inl e \<Rightarrow> Inl e
      | Inr user \<Rightarrow>
          if version (credentials user) \<noteq> v
          then Inl (UnauthorizedException ''Invalid credentials'')
          else Inr user)"

text \<open>
  Modelled from the spec: the method \<^verbatim>\<open>updateVersion\<close> of the credentials embeddable, whose
  class is not among the sources. The spec has the version incremented by one on email
  confirmation.
\<close>

definition updateVersion :: "credentials \<Rightarrow> credentials" where
  "updateVersion c = c\<lparr>version := version c + 1\<rparr>"

text \<open>
  Modelled from the spec: the method \<^verbatim>\<open>updatePassword(password)\<close> of the credentials
  embeddable, whose class is not among the sources. The spec has the version incremented
  by one on a change or reset of the password, and the old hash archived in the
  credentials; the tests of the service expect version 1 after a change and version 2
  after the reset that follows it.
\<close>

definition updatePassword_credentials :: "credentials \<Rightarrow> string \<Rightarrow> credentials" where
  "updatePassword_credentials c pw = c\<lparr>version := version c + 1, lastPassword := pw\<rparr>"

text \<open>
  Modelled from the spec: \<^verbatim>\<open>isUndefined\<close> of the validation utilities, which are not among
  the sources, on a cached value. The spec has the online status written only when a
  session entry exists in the cache.
\<close>

definition isUndefined :: "'d cached \<Rightarrow> bool" where
  "isUndefined d = (d = Undefined)"

text \<open>
  Modelled from the spec: \<^verbatim>\<open>isNull\<close> of the validation utilities, which are not among the
  sources, on a cached value.
\<close>

definition isNull :: "'d cached \<Rightarrow> bool" where
  "isNull d = (d = Null)"

text \<open>A session entry is in the cache for the user: the key \<^verbatim>\<open>sessions:<id>\<close> holds a
  value.\<close>

definition has_session :: "'d cache \<Rightarrow> int \<Rightarrow> bool" where
  "has_session cacheManager userId =
     (case cacheManager (''sessions:'' @ show_int userId) of Cached d \<Rightarrow> True | _ \<Rightarrow> False)"

type_synonym ('s, 'p) outcome = "(exn + ('s, 'p) user) \<times> ('s, 'p) store"

definition checkEmailUniqueness :: "('s, 'p) store \<Rightarrow> string \<Rightarrow> exn + unit" where
  "checkEmailUniqueness db e =
     (if count_rows (\<lambda>r. email r = e) db > 0
      then Inl (ConflictException ''Email already in use'') else Inr ())"

definition checkUsernameUniqueness :: "('s, 'p) store \<Rightarrow> string \<Rightarrow> exn + unit" where
  "checkUsernameUniqueness db un =
     (if count_rows (\<lambda>r. username r = un) db > 0
      then Inl (ConflictException ''Username already in use'') else Inr ())"

definition generateUsername :: "('s, 'p) collab \<Rightarrow> ('s, 'p) store \<Rightarrow> string \<Rightarrow> string" where
  "generateUsername E db nm =
     (let pointSlug = generatePointSlug E nm;
          count = count_rows (username_like E pointSlug) db
      in if count > 0 then pointSlug @ show_nat count else pointSlug)"

text \<open>\<^verbatim>\<open>create\<close>; an absent \<^verbatim>\<open>password\<close> argument is \<open>None\<close>.\<close>

definition create ::
  "('s, 'p) collab \<Rightarrow> ('s, 'p) store \<Rightarrow> string \<Rightarrow> string \<Rightarrow> 'p \<Rightarrow> string option \<Rightarrow> nat
     \<Rightarrow> ('s, 'p) outcome" where
  "create E db em nm provider pw salt =
     (let formattedEmail = toLowerCase E em in
      case checkEmailUniqueness db formattedEmail of
        Inl e \<Rightarrow> (Inl e, db)
      | Inr _ \<Rightarrow>
          let formattedName = formatTitle E nm;
              user = (newEntity E)\<lparr>
                email := formattedEmail,
                name := formattedName,
                username := generateUsername E db formattedName,
                authProviders := [provider],
                password := (case pw of None \<Rightarrow> ''UNSET'' | Some p \<Rightarrow> hash E p 10 salt)\<rparr>
          in (case saveEntity db user True of
                Inl e \<Rightarrow> (Inl e, db)
              | Inr (saved, db') \<Rightarrow> (Inr saved, db')))"

definition confirmEmail :: "('s, 'p) store \<Rightarrow> int \<Rightarrow> int \<Rightarrow> ('s, 'p) outcome" where
  "confirmEmail db userId v =
     (case findOneByCredentials db userId v of
        Inl e \<Rightarrow> (Inl e, db)
      | Inr user \<Rightarrow>
          if confirmed user then (Inl (BadRequestException ''Email already confirmed''), db)
          else
            let user1 = user\<lparr>confirmed := True\<rparr>;
                user2 = user1\<lparr>credentials := updateVersion (credentials user1)\<rparr>
            in (case saveEntity db user2 False of
                  Inl e \<Rightarrow> (Inl e, db)
                | Inr (saved, db') \<Rightarrow> (Inr saved, db')))"

definition updatePassword ::
  "('s, 'p) collab \<Rightarrow> ('s, 'p) store \<Rightarrow> int \<Rightarrow> string \<Rightarrow> string \<Rightarrow> nat \<Rightarrow> ('s, 'p) outcome" where
  "updatePassword E db userId pw newPassword salt =
     (case findOneById db userId of
        Inl e \<Rightarrow> (Inl e, db)
      | Inr user \<Rightarrow>
          if \<not> compare E pw (password user)
          then (Inl (BadRequestException ''Wrong password''), db)
          else if compare E newPassword (password user)
          then (Inl (BadRequestException ''New password must be different''), db)
          else
            let user1 = user\<lparr>credentials :=
                          updatePassword_credentials (credentials user) (password user)\<rparr>;
                user2 = user1\<lparr>password := hash E newPassword 10 salt\<rparr>
            in (case saveEntity db user2 False of
                  Inl e \<Rightarrow> (Inl e, db)
                | Inr (saved, db') \<Rightarrow> (Inr saved, db')))"

definition resetPassword ::
  "('s, 'p) collab \<Rightarrow> ('s, 'p) store \<Rightarrow> int \<Rightarrow> int \<Rightarrow> string \<Rightarrow> nat \<Rightarrow> ('s, 'p) outcome" where
  "resetPassword E db userId v pw salt =
     (case findOneByCredentials db userId v of
        Inl e \<Rightarrow> (Inl e, db)
      | Inr user \<Rightarrow>
          let user1 = user\<lparr>credentials :=
                        updatePassword_credentials (credentials user) (password user)\<rparr>;
              user2 = user1\<lparr>password := hash E pw 10 salt\<rparr>
          in (case saveEntity db user2 False of
                Inl e \<Rightarrow> (Inl e, db)
              | Inr (saved, db') \<Rightarrow> (Inr saved, db')))"

text \<open>\<^verbatim>\<open>updateEmail\<close>; the two fields of the DTO are two arguments.\<close>

definition updateEmail ::
  "('s, 'p) collab \<Rightarrow> ('s, 'p) store \<Rightarrow> int \<Rightarrow> string \<Rightarrow> string \<Rightarrow> ('s, 'p) outcome" where
  "updateEmail E db userId em pw =
     (case findOneById db userId of
        Inl e \<Rightarrow> (Inl e, db)
      | Inr user \<Rightarrow>
          if \<not> compare E pw (password user)
          then (Inl (BadRequestException ''Wrong password''), db)
          else
            let formattedEmail = toLowerCase E em in
            if email user = formattedEmail
            then (Inl (BadRequestException ''Email should be different''), db)
            else
              (case checkEmailUniqueness db formattedEmail of
                 Inl e \<Rightarrow> (Inl e, db)
               | Inr _ \<Rightarrow>
                   (case saveEntity db (user\<lparr>email := formattedEmail\<rparr>) False of
                      Inl e \<Rightarrow> (Inl e, db)
                    | Inr (saved, db') \<Rightarrow> (Inr saved, db'))))"

definition delete_user ::
  "('s, 'p) collab \<Rightarrow> ('s, 'p) store \<Rightarrow> int \<Rightarrow> string \<Rightarrow> ('s, 'p) outcome" where
  "delete_user E db userId pw =
     (case findOneById db userId of
        Inl e \<Rightarrow> (Inl e, db)
      | Inr user \<Rightarrow>
          if \<not> compare E pw (password user)
          then (Inl (BadRequestException ''Wrong password''), db)
          else (Inr user, removeEntity db user))"

definition updateName ::
  "('s, 'p) collab \<Rightarrow> ('s, 'p) store \<Rightarrow> int \<Rightarrow> string \<Rightarrow> ('s, 'p) outcome" where
  "updateName E db userId nm =
     (let formatName = formatTitle E nm in
      case findOneById db userId of
        Inl e \<Rightarrow> (Inl e, db)
      | Inr user \<Rightarrow>
          let user1 = user\<lparr>name := formatName\<rparr>;
              user2 = user1\<lparr>username := generateUsername E db formatName\<rparr>
          in (case saveEntity db user2 False of
                Inl e \<Rightarrow> (Inl e, db)
              | Inr (saved, db') \<Rightarrow> (Inr saved, db')))"

definition updateUsername ::
  "('s, 'p) collab \<Rightarrow> ('s, 'p) store \<Rightarrow> int \<Rightarrow> string \<Rightarrow> ('s, 'p) outcome" where
  "updateUsername E db userId un =
     (case findOneById db userId of
        Inl e \<Rightarrow> (Inl e, db)
      | Inr user \<Rightarrow>
          let formattedUsername = toLowerCase E un in
          (case checkUsernameUniqueness db formattedUsername of
             Inl e \<Rightarrow> (Inl e, db)
           | Inr _ \<Rightarrow>
               (case saveEntity db (user\<lparr>username := formattedUsername\<rparr>) False of
                  Inl e \<Rightarrow> (Inl e, db)
                | Inr (saved, db') \<Rightarrow> (Inr saved, db'))))"

definition updateOnlineStatus ::
  "'d cache \<Rightarrow> ('s, 'p) store \<Rightarrow> int \<Rightarrow> 's \<Rightarrow> ('s, 'p) outcome" where
  "updateOnlineStatus cacheManager db userId status =
     (case findOneById db userId of
        Inl e \<Rightarrow> (Inl e, db)
      | Inr user \<Rightarrow>
          let user1 = user\<lparr>defaultStatus := status\<rparr>;
              data = cacheManager (''sessions:'' @ show_int userId);
              user2 = (if \<not> isUndefined data \<and> \<not> isNull data
                       then user1\<lparr>onlineStatus := status\<rparr> else user1)
          in (case saveEntity db user2 False of
                Inl e \<Rightarrow> (Inl e, db)
              | Inr (saved, db') \<Rightarrow> (Inr saved, db')))"

subsection \<open>Sequences of registrations\<close>

text \<open>
  The arguments of one call of \<^verbatim>\<open>create\<close> (email, name, provider, optional password) with
  the salt bcrypt draws in that call; the point slug the call derives the username from;
  and a run of calls one after the other, each on the store the one before it left, which
  yields the outcome of every call and the last store.
\<close>

type_synonym 'p create_args = "string \<times> string \<times> 'p \<times> string option \<times> nat"

fun create_args :: "('s, 'p) collab \<Rightarrow> ('s, 'p) store \<Rightarrow> 'p create_args \<Rightarrow> ('s, 'p) outcome" where
  "create_args E db (em, nm, provider, pw, salt) = create E db em nm provider pw salt"

fun slug_of :: "('s, 'p) collab \<Rightarrow> 'p create_args \<Rightarrow> string" where
  "slug_of E (em, nm, provider, pw, salt) = generatePointSlug E (formatTitle E nm)"

fun create_all ::
  "('s, 'p) collab \<Rightarrow> ('s, 'p) store \<Rightarrow> 'p create_args list
     \<Rightarrow> (exn + ('s, 'p) user) list \<times> ('s, 'p) store" where
  "create_all E db [] = ([], db)"
| "create_all E db (a # as) =
     (case create_args E db a of
        (r, db1) \<Rightarrow> (case create_all E db1 as of (rs, db2) \<Rightarrow> (r # rs, db2)))"

subsection \<open>An instance to run the model on\<close>

text \<open>
  Stand-ins for the collaborators, to evaluate the service on concrete inputs. Every
  string used below is ASCII, and every name (Ann, Ann1, Anna, Bob, Carl) is a single
  capitalised word: a title already, with the word in lower case as slug.

  Lower case on ASCII, where \<^verbatim>\<open>toLowerCase\<close> folds the letters A to Z and nothing else.
\<close>

definition lower_char :: "char \<Rightarrow> char" where
  "lower_char c =
     (let n = (of_char c :: nat) in if 65 \<le> n \<and> n \<le> 90 then char_of (n + 32) else c)"

definition lower_ascii :: "string \<Rightarrow> string" where
  "lower_ascii s = map lower_char s"

text \<open>
  \<^verbatim>\<open>LIKE\<close> as SQLite, the engine of the test configuration, evaluates it on ASCII: a
  percent sign in the pattern stands for any run of characters, an underscore for any
  one character, and letters match whatever their case.
\<close>

fun like_match :: "string \<Rightarrow> string \<Rightarrow> bool" where
  "like_match [] [] = True"
| "like_match [] (c # cs) = False"
| "like_match (p # ps) [] = (p = CHR ''%'' \<and> like_match ps [])"
| "like_match (p # ps) (c # cs) =
     (if p = CHR ''%'' then like_match ps (c # cs) \<or> like_match (p # ps) cs
      else if p = CHR ''_'' then like_match ps cs
      else lower_char p = lower_char c \<and> like_match ps cs)"

text \<open>
  Titles are kept as they are, the slug of a name is the name in lower case, and a hash is
  the salt in decimal, a colon and the password, which \<open>compare\<close> reads back.
\<close>

definition demo_collab :: "(string, string) collab" where
  "demo_collab =
     \<lparr>formatTitle = (\<lambda>s. s),
      generatePointSlug = lower_ascii,
      toLowerCase = lower_ascii,
      like = like_match,
      hash = (\<lambda>p rounds salt. show_nat salt @ CHR '':'' # p),
      compare = (\<lambda>p h. case dropWhile (\<lambda>c. c \<noteq> CHR '':'') h of
                          [] \<Rightarrow> False | _ # rest \<Rightarrow> rest = p),
      newEntity =
        \<lparr>id_user = 0, email = [], username = [], name = [], password = [], confirmed = False,
         onlineStatus = ''offline'', defaultStatus = ''online'', authProviders = [],
         picture = None, credentials = \<lparr>version = 0, lastPassword = []\<rparr>\<rparr>\<rparr>"

definition empty_store :: "(string, string) store" where
  "empty_store = \<lparr>rows = [], nextId = 1\<rparr>"

text \<open>The user that \<^verbatim>\<open>create('Ann@X.com', 'Ann', 'local', 'secret')\<close> stores in the empty
  store when the salt is 7, and the store after it.\<close>

definition ann :: "(string, string) user" where
  "ann = \<lparr>id_user = 1, email = ''ann@x.com'', username = ''ann'', name = ''Ann'',
          password = ''7:secret'', confirmed = False, onlineStatus = ''offline'',
          defaultStatus = ''online'', authProviders = [''local''], picture = None,
          credentials = \<lparr>version = 0, lastPassword = []\<rparr>\<rparr>"

definition ann_store :: "(string, string) store" where
  "ann_store = \<lparr>rows = [ann], nextId = 2\<rparr>"

text \<open>Bob, registered after Ann through a provider and so without a password, and the
  store that holds both.\<close>

definition bob :: "(string, string) user" where
  "bob = \<lparr>id_user = 2, email = ''bob@x.com'', username = ''bob'', name = ''Bob'',
          password = ''UNSET'', confirmed = False, onlineStatus = ''offline'',
          defaultStatus = ''online'', authProviders = [''google''], picture = None,
          credentials = \<lparr>version = 0, lastPassword = []\<rparr>\<rparr>"

definition two_store :: "(string, string) store" where
  "two_store = \<lparr>rows = [ann, bob], nextId = 3\<rparr>"

text \<open>A cache with a session for user 1, a \<^verbatim>\<open>null\<close> entry for user 2 and nothing else.\<close>

definition demo_cache :: "unit cache" where
  "demo_cache k =
     (if k = ''sessions:1'' then Cached () else if k = ''sessions:2'' then Null else Undefined)"

text \<open>Two runs of registrations on the empty store: a user named Anna followed by a user
  named Ann, and a user named Ann1 followed by a user named Ann.\<close>

definition anna_then_ann :: "string create_args list" where
  "anna_then_ann =
     [(''anna@x.com'', ''Anna'', ''local'', None, 0),
      (''ann@x.com'', ''Ann'', ''local'', None, 0)]"

definition ann1_then_ann :: "string create_args list" where
  "ann1_then_ann =
     [(''ann1@x.com'', ''Ann1'', ''local'', None, 0),
      (''ann@x.com'', ''Ann'', ''local'', None, 0)]"

text \<open>
  The stores that the following calls leave one after the other, starting from the store
  with Ann: \<^verbatim>\<open>create('ann2@x.com', 'Ann', 'local')\<close>, which adds a second Ann under the
  username \<^verbatim>\<open>ann1\<close>; \<^verbatim>\<open>create('carl@x.com', 'Carl', 'local')\<close>; and \<^verbatim>\<open>delete(1, 'secret')\<close>,
  which removes the first Ann.
\<close>

definition ann_second :: "(string, string) user" where
  "ann_second = \<lparr>id_user = 2, email = ''ann2@x.com'', username = ''ann1'', name = ''Ann'',
          password = ''UNSET'', confirmed = False, onlineStatus = ''offline'',
          defaultStatus = ''online'', authProviders = [''local''], picture = None,
          credentials = \<lparr>version = 0, lastPassword = []\<rparr>\<rparr>"

definition carl :: "(string, string) user" where
  "carl = \<lparr>id_user = 3, email = ''carl@x.com'', username = ''carl'', name = ''Carl'',
          password = ''UNSET'', confirmed = False, onlineStatus = ''offline'',
          defaultStatus = ''online'', authProviders = [''local''], picture = None,
          credentials = \<lparr>version = 0, lastPassword = []\<rparr>\<rparr>"

definition two_anns_store :: "(string, string) store" where
  "two_anns_store = \<lparr>rows = [ann, ann_second], nextId = 3\<rparr>"

definition two_anns_carl_store :: "(string, string) store" where
  "two_anns_carl_store = \<lparr>rows = [ann, ann_second, carl], nextId = 4\<rparr>"

definition carl_store :: "(string, string) store" where
  "carl_store = \<lparr>rows = [ann_second, carl], nextId = 4\<rparr>"

section \<open>Properties\<close>

subsection \<open>The repository\<close>

lemma findOne_SomeD:
  "findOne w db = Some u \<Longrightarrow> u \<in> set (rows db) \<and> w u"
  by (auto simp: findOne_def find_Some_iff)

lemma findOneById_found:
  "findOne (\<lambda>r. id_user r = i) db = Some u \<Longrightarrow> findOneById db i = Inr u"
  by (simp add: findOneById_def checkEntityExistence_def)

lemma findOneById_absent:
  "findOne (\<lambda>r. id_user r = i) db = None \<Longrightarrow>
     findOneById db i = Inl (NotFoundException ''User not found'')"
  by (simp add: findOneById_def checkEntityExistence_def)

lemma unique_ok_iff:
  "unique_ok u others \<longleftrightarrow>
     (\<forall>r \<in> set others. email r \<noteq> email u) \<and> (\<forall>r \<in> set others. username r \<noteq> username u)"
  by (simp add: unique_ok_def list_all_iff)

lemma wf_store_id_inj:
  "wf_store db \<Longrightarrow> r \<in> set (rows db) \<Longrightarrow> u \<in> set (rows db) \<Longrightarrow>
     id_user r = id_user u \<Longrightarrow> r = u"
  by (auto simp: wf_store_def distinct_map dest: inj_onD)

text \<open>On a store that satisfies the invariant, the lookup by id finds every stored user.\<close>

lemma findOne_stored:
  assumes "wf_store db" and "u \<in> set (rows db)"
  shows "findOne (\<lambda>r. id_user r = id_user u) db = Some u"
proof -
  from assms(2) obtain found where f: "findOne (\<lambda>r. id_user r = id_user u) db = Some found"
    by (cases "findOne (\<lambda>r. id_user r = id_user u) db") (auto simp: findOne_def find_None_iff)
  from findOne_SomeD [OF f] wf_store_id_inj [OF assms(1) _ assms(2)] have "found = u"
    by simp
  with f show ?thesis by simp
qed

lemma wf_store_email_inj:
  "wf_store db \<Longrightarrow> r \<in> set (rows db) \<Longrightarrow> u \<in> set (rows db) \<Longrightarrow> email r = email u \<Longrightarrow> r = u"
  by (auto simp: wf_store_def distinct_map dest: inj_onD)

lemma wf_store_username_inj:
  "wf_store db \<Longrightarrow> r \<in> set (rows db) \<Longrightarrow> u \<in> set (rows db) \<Longrightarrow>
     username r = username u \<Longrightarrow> r = u"
  by (auto simp: wf_store_def distinct_map dest: inj_onD)

text \<open>Saving a managed entity never fails when it kept its id and its username, and its
  email is either the one it had or one no row holds.\<close>

lemma unique_ok_managed:
  assumes "wf_store db" and "u \<in> set (rows db)"
    and "id_user u' = id_user u" and "username u' = username u"
    and "email u' = email u \<or> (\<forall>r \<in> set (rows db). email r \<noteq> email u')"
  shows "unique_ok u' (filter (\<lambda>r. id_user r \<noteq> id_user u') (rows db))"
proof -
  have other: "r \<noteq> u" if "id_user r \<noteq> id_user u'" for r
    using that assms(3) by auto
  have e: "email r \<noteq> email u'" if "r \<in> set (rows db)" and "id_user r \<noteq> id_user u'" for r
    using assms(5) wf_store_email_inj [OF assms(1) that(1) assms(2)] other [OF that(2)] that(1)
    by auto
  have n: "username r \<noteq> username u'"
    if "r \<in> set (rows db)" and "id_user r \<noteq> id_user u'" for r
    using assms(4) wf_store_username_inj [OF assms(1) that(1) assms(2)] other [OF that(2)]
    by auto
  show ?thesis
    using e n by (simp add: unique_ok_iff)
qed

lemma saveEntity_managed:
  assumes "wf_store db" and "findOne (\<lambda>r. id_user r = i) db = Some u"
    and "id_user u' = id_user u" and "username u' = username u"
    and "email u' = email u \<or> (\<forall>r \<in> set (rows db). email r \<noteq> email u')"
  shows "saveEntity db u' False =
           Inr (u', db\<lparr>rows := map (\<lambda>r. if id_user r = i then u' else r) (rows db)\<rparr>)"
proof -
  from assms(2) have mem: "u \<in> set (rows db)" and i: "id_user u = i"
    using findOne_SomeD by fastforce+
  from unique_ok_managed [OF assms(1) mem assms(3,4,5)] i assms(3)
  show ?thesis by (simp add: saveEntity_def)
qed

lemma find_replace:
  "find (\<lambda>r. id_user r = i) xs = Some u \<Longrightarrow> id_user u' = i \<Longrightarrow>
     find (\<lambda>r. id_user r = i) (map (\<lambda>r. if id_user r = i then u' else r) xs) = Some u'"
  by (induction xs) (auto split: if_splits)

lemma findOne_replace:
  "findOne (\<lambda>r. id_user r = i) db = Some u \<Longrightarrow> id_user u' = i \<Longrightarrow>
     findOne (\<lambda>r. id_user r = i)
       (db\<lparr>rows := map (\<lambda>r. if id_user r = i then u' else r) (rows db)\<rparr>) = Some u'"
  by (simp add: findOne_def find_replace)

subsection \<open>The storage invariant\<close>

text \<open>The invariant holds of an empty table, and every save and every removal keeps it, so
  it holds of every store the service can reach from an empty one.\<close>

lemma wf_store_empty: "wf_store \<lparr>rows = [], nextId = n\<rparr>"
  by (simp add: wf_store_def)

lemma distinct_replace:
  assumes "distinct (map id_user xs)" and "distinct (map k xs)"
    and "\<forall>r \<in> set xs. id_user r \<noteq> id_user e \<longrightarrow> k r \<noteq> k e"
  shows "distinct (map k (map (\<lambda>r. if id_user r = id_user e then e else r) xs))"
  using assms
proof (induction xs)
  case Nil
  then show ?case by simp
next
  case (Cons x xs)
  let ?f = "\<lambda>r. if id_user r = id_user e then e else r"
  from Cons have IH: "distinct (map k (map ?f xs))"
    by simp
  show ?case
  proof (cases "id_user x = id_user e")
    case True
    with Cons.prems(1) have "\<forall>r \<in> set xs. id_user r \<noteq> id_user e"
      by (metis distinct.simps(2) image_eqI list.simps(9) set_map)
    then have "map ?f xs = xs" and "k e \<notin> k ` set xs"
      using Cons.prems(3) by (auto simp: map_idI)
    with True Cons.prems(2) show ?thesis
      by simp
  next
    case False
    have "k x \<noteq> k (?f r)" if "r \<in> set xs" for r
      using that False Cons.prems(2,3) by (cases "id_user r = id_user e") auto
    with False IH show ?thesis
      by auto
  qed
qed

lemma wf_store_saveEntity:
  assumes "wf_store db" and "saveEntity db e isNew = Inr (saved, db')"
  shows "wf_store db'"
proof (cases isNew)
  case True
  with assms(2) have ok: "unique_ok e (rows db)"
    and db': "db' = db\<lparr>rows := rows db @ [e\<lparr>id_user := nextId db\<rparr>], nextId := nextId db + 1\<rparr>"
    by (auto simp: saveEntity_def Let_def split: if_splits)
  from assms(1) ok show ?thesis
    by (auto simp: wf_store_def db' unique_ok_iff list_all_iff)
next
  case False
  with assms(2) have ok: "unique_ok e (filter (\<lambda>r. id_user r \<noteq> id_user e) (rows db))"
    and db': "db' = db\<lparr>rows := map (\<lambda>r. if id_user r = id_user e then e else r) (rows db)\<rparr>"
    by (auto simp: saveEntity_def split: if_splits)
  let ?f = "\<lambda>r. if id_user r = id_user e then e else r"
  from assms(1) have d: "distinct (map id_user (rows db))" "distinct (map email (rows db))"
    "distinct (map username (rows db))" and lt: "\<forall>r \<in> set (rows db). id_user r < nextId db"
    by (simp_all add: wf_store_def list_all_iff)
  have ids: "map id_user (map ?f (rows db)) = map id_user (rows db)"
    by simp
  have "distinct (map email (map ?f (rows db)))"
    using ok by (intro distinct_replace d) (simp add: unique_ok_iff)
  moreover have "distinct (map username (map ?f (rows db)))"
    using ok by (intro distinct_replace d) (simp add: unique_ok_iff)
  moreover have "\<forall>r \<in> set (map ?f (rows db)). id_user r < nextId db"
    using lt by auto
  ultimately show ?thesis
    using d(1) ids by (simp add: wf_store_def db' list_all_iff del: map_map)
qed

lemma wf_store_removeEntity: "wf_store db \<Longrightarrow> wf_store (removeEntity db e)"
  by (auto simp: wf_store_def removeEntity_def list_all_iff distinct_map_filter)

text \<open>Every method of the service keeps the invariant.\<close>

lemma wf_store_service:
  assumes "wf_store db"
  shows "wf_store (snd (create E db em nm pr pw salt))"
    and "wf_store (snd (confirmEmail db i v))"
    and "wf_store (snd (updatePassword E db i old new salt))"
    and "wf_store (snd (resetPassword E db i v new salt))"
    and "wf_store (snd (updateEmail E db i em old))"
    and "wf_store (snd (delete_user E db i old))"
    and "wf_store (snd (updateName E db i nm))"
    and "wf_store (snd (updateUsername E db i nm))"
    and "wf_store (snd (updateOnlineStatus cacheManager db i status))"
  using assms wf_store_saveEntity [OF assms] wf_store_removeEntity [OF assms]
  by (auto simp: create_def confirmEmail_def updatePassword_def resetPassword_def updateEmail_def
      delete_user_def updateName_def updateUsername_def updateOnlineStatus_def Let_def
      split: sum.splits if_splits prod.splits)

subsection \<open>The instance\<close>

text \<open>The instance: the registration of Ann, and the facts about her row that the
  examples below start from.\<close>

lemma create_ann:
  "create demo_collab empty_store ''Ann@X.com'' ''Ann'' ''local'' (Some ''secret'') 7
     = (Inr ann, ann_store)"
  by code_simp

lemma wf_ann_store: "wf_store ann_store"
  by code_simp

lemma findOne_ann: "findOne (\<lambda>r. id_user r = 1) ann_store = Some ann"
  by (simp add: findOne_def ann_store_def ann_def)

lemma create_bob:
  "create demo_collab ann_store ''Bob@x.com'' ''Bob'' ''google'' None 8 = (Inr bob, two_store)"
  by code_simp

lemma wf_two_store: "wf_store two_store"
  by code_simp

lemma findOne_two_store:
  "findOne (\<lambda>r. id_user r = 1) two_store = Some ann"
  "findOne (\<lambda>r. id_user r = 2) two_store = Some bob"
  by (simp_all add: findOne_def two_store_def ann_def bob_def)

lemma lower_examples:
  "toLowerCase demo_collab ''New@X.com'' = ''new@x.com''"
  "toLowerCase demo_collab ''ANN@x.com'' = ''ann@x.com''"
  "toLowerCase demo_collab ''Bob@X.com'' = ''bob@x.com''"
  by code_simp+

subsection \<open>Lookup by credentials\<close>

text \<open>
  Claim C1. For every user stored with credentials version \<open>cv\<close> and every supplied
  version \<open>v\<close>, \<^verbatim>\<open>findOneByCredentials(id, v)\<close> returns the user exactly when \<open>v = cv\<close>;
  when \<open>v \<noteq> cv\<close>, and when no stored user has the id, it fails with the unauthorized
  error ``Invalid credentials''. The store satisfies its uniqueness invariant, so that
  the id names one user.
\<close>

theorem findOneByCredentials_iff:
  "(wf_store db \<and> u \<in> set (rows db) \<longrightarrow>
      ((\<exists>found. findOneByCredentials db (id_user u) v = Inr found)
         \<longleftrightarrow> v = version (credentials u))
      \<and> (v = version (credentials u) \<longrightarrow> findOneByCredentials db (id_user u) v = Inr u)
      \<and> (v \<noteq> version (credentials u) \<longrightarrow>
           findOneByCredentials db (id_user u) v =
             Inl (UnauthorizedException ''Invalid credentials'')))
   \<and> ((\<forall>r \<in> set (rows db). id_user r \<noteq> i) \<longrightarrow>
        findOneByCredentials db i v = Inl (UnauthorizedException ''Invalid credentials''))"
proof -
  have stored: "findOneByCredentials db (id_user u) v =
      (if v = version (credentials u) then Inr u
       else Inl (UnauthorizedException ''Invalid credentials''))"
    if "wf_store db" and "u \<in> set (rows db)"
    using findOne_stored [OF that]
    by (simp add: findOneByCredentials_def throwUnauthorizedException_def)
  have absent: "findOneByCredentials db i v = Inl (UnauthorizedException ''Invalid credentials'')"
    if "\<forall>r \<in> set (rows db). id_user r \<noteq> i"
    using that
    by (simp add: findOneByCredentials_def throwUnauthorizedException_def findOne_def
        find_None_iff [THEN iffD2])
  show ?thesis
    using stored absent by auto
qed

theorem findOneByCredentials_iff_witness:
  "wf_store ann_store \<and> ann \<in> set (rows ann_store)
   \<and> findOneByCredentials ann_store (id_user ann) 0 = Inr ann
   \<and> findOneByCredentials ann_store (id_user ann) 1 =
       Inl (UnauthorizedException ''Invalid credentials'')
   \<and> map id_user (rows ann_store) = [1]
   \<and> findOneByCredentials ann_store 3 0 = Inl (UnauthorizedException ''Invalid credentials'')"
proof -
  have mem: "ann \<in> set (rows ann_store)"
    by (simp add: ann_store_def)
  have ids: "map id_user (rows ann_store) = [1]"
    by (simp add: ann_store_def ann_def)
  then have absent: "\<forall>r \<in> set (rows ann_store). id_user r \<noteq> 3"
    by (simp add: ann_store_def)
  have v: "version (credentials ann) = 0"
    by (simp add: ann_def)
  show ?thesis
    using wf_ann_store mem ids absent v
      findOneByCredentials_iff [of ann_store ann 0 3]
      findOneByCredentials_iff [of ann_store ann 1 3]
    by simp
qed

subsection \<open>Changing the password\<close>

lemma compare_ann:
  "compare demo_collab ''secret'' (password ann)"
  "\<not> compare demo_collab ''fresh'' (password ann)"
  "\<not> compare demo_collab ''guess'' (password ann)"
  by (simp_all add: demo_collab_def ann_def)

lemma hash_fresh: "hash demo_collab ''fresh'' 10 9 = ''9:fresh''"
  by code_simp

text \<open>
  Claim C2. For an existing user, \<^verbatim>\<open>updatePassword(id, old, new)\<close> succeeds exactly when
  \<open>old\<close> matches the stored hash and \<open>new\<close> does not. On success the credentials version
  is one more than before, the old hash is archived in the credentials, the stored
  password is a hash of \<open>new\<close>, and the row is stored. On failure it throws the bad-request
  error ``Wrong password'' or ``New password must be different'' and leaves the store as
  it was. The store satisfies its uniqueness invariant.
\<close>

theorem updatePassword_iff:
  fixes E :: "('s, 'p) collab" and new :: string and salt :: nat
  assumes "wf_store db" and "findOne (\<lambda>r. id_user r = i) db = Some u"
  defines "u' \<equiv> u\<lparr>credentials := (credentials u)\<lparr>version := version (credentials u) + 1,
                                                  lastPassword := password u\<rparr>,
                   password := hash E new 10 salt\<rparr>"
  shows "((\<exists>saved db'. updatePassword E db i old new salt = (Inr saved, db'))
            \<longleftrightarrow> compare E old (password u) \<and> \<not> compare E new (password u))
    \<and> (compare E old (password u) \<and> \<not> compare E new (password u) \<longrightarrow>
          updatePassword E db i old new salt =
            (Inr u', db\<lparr>rows := map (\<lambda>r. if id_user r = i then u' else r) (rows db)\<rparr>)
          \<and> findOne (\<lambda>r. id_user r = i) (snd (updatePassword E db i old new salt)) = Some u')
    \<and> (\<not> compare E old (password u) \<longrightarrow>
          updatePassword E db i old new salt = (Inl (BadRequestException ''Wrong password''), db))
    \<and> (compare E old (password u) \<and> compare E new (password u) \<longrightarrow>
          updatePassword E db i old new salt =
            (Inl (BadRequestException ''New password must be different''), db))"
proof -
  have byid: "findOneById db i = Inr u"
    using assms(2) by (rule findOneById_found)
  have save: "saveEntity db u' False =
      Inr (u', db\<lparr>rows := map (\<lambda>r. if id_user r = i then u' else r) (rows db)\<rparr>)"
    by (rule saveEntity_managed [OF assms(1,2)]) (simp_all add: u'_def)
  have idu: "id_user u' = i"
    using findOne_SomeD [OF assms(2)] by (simp add: u'_def)
  have ok: "compare E old (password u) \<Longrightarrow> \<not> compare E new (password u) \<Longrightarrow>
      updatePassword E db i old new salt =
        (Inr u', db\<lparr>rows := map (\<lambda>r. if id_user r = i then u' else r) (rows db)\<rparr>)"
    using save by (simp add: updatePassword_def byid updatePassword_credentials_def u'_def)
  have wrong: "\<not> compare E old (password u) \<Longrightarrow>
      updatePassword E db i old new salt = (Inl (BadRequestException ''Wrong password''), db)"
    by (simp add: updatePassword_def byid)
  have same: "compare E old (password u) \<Longrightarrow> compare E new (password u) \<Longrightarrow>
      updatePassword E db i old new salt =
        (Inl (BadRequestException ''New password must be different''), db)"
    by (simp add: updatePassword_def byid)
  show ?thesis
    using ok wrong same findOne_replace [OF assms(2) idu]
    by (cases "compare E old (password u)"; cases "compare E new (password u)") simp_all
qed

theorem updatePassword_iff_witness:
  "wf_store ann_store \<and> findOne (\<lambda>r. id_user r = 1) ann_store = Some ann
   \<and> compare demo_collab ''secret'' (password ann) \<and> \<not> compare demo_collab ''fresh'' (password ann)
   \<and> updatePassword demo_collab ann_store 1 ''secret'' ''fresh'' 9 =
       (Inr (ann\<lparr>credentials := \<lparr>version = 1, lastPassword = ''7:secret''\<rparr>,
                  password := ''9:fresh''\<rparr>),
        \<lparr>rows = [ann\<lparr>credentials := \<lparr>version = 1, lastPassword = ''7:secret''\<rparr>,
                      password := ''9:fresh''\<rparr>], nextId = 2\<rparr>)
   \<and> updatePassword demo_collab ann_store 1 ''guess'' ''fresh'' 9 =
       (Inl (BadRequestException ''Wrong password''), ann_store)
   \<and> updatePassword demo_collab ann_store 1 ''secret'' ''secret'' 9 =
       (Inl (BadRequestException ''New password must be different''), ann_store)"
proof -
  have rows: "rows ann_store = [ann]" "nextId ann_store = 2" "id_user ann = 1"
    "credentials ann = \<lparr>version = 0, lastPassword = []\<rparr>" "password ann = ''7:secret''"
    by (simp_all add: ann_store_def ann_def)
  have st: "ann_store\<lparr>rows := xs\<rparr> = \<lparr>rows = xs, nextId = 2\<rparr>" for xs
    by (simp add: ann_store_def)
  show ?thesis
    using wf_ann_store findOne_ann compare_ann hash_fresh
      updatePassword_iff [OF wf_ann_store findOne_ann,
        where E = demo_collab and old = "''secret''" and new = "''fresh''" and salt = 9]
      updatePassword_iff [OF wf_ann_store findOne_ann,
        where E = demo_collab and old = "''guess''" and new = "''fresh''" and salt = 9]
      updatePassword_iff [OF wf_ann_store findOne_ann,
        where E = demo_collab and old = "''secret''" and new = "''secret''" and salt = 9]
    by (simp add: rows st)
qed

subsection \<open>Resetting the password\<close>

lemma findOneByCredentials_found:
  "findOne (\<lambda>r. id_user r = i) db = Some u \<Longrightarrow> version (credentials u) = v \<Longrightarrow>
     findOneByCredentials db i v = Inr u"
  by (simp add: findOneByCredentials_def throwUnauthorizedException_def)

lemma findOneByCredentials_InrD:
  "findOneByCredentials db i v = Inr u \<Longrightarrow>
     findOne (\<lambda>r. id_user r = i) db = Some u \<and> version (credentials u) = v"
  by (auto simp: findOneByCredentials_def throwUnauthorizedException_def
      split: option.splits if_splits)

lemma hash_secret: "hash demo_collab ''secret'' 10 9 = ''9:secret''"
  by code_simp

text \<open>
  Claim C9. \<^verbatim>\<open>resetPassword(id, version, new)\<close> does not ask that the new password differ
  from the current one. For a user whose credentials version is the supplied one it
  succeeds for every new password: the old hash is archived, the version is one more
  than before and the password is a hash of the new one. With a new password that
  matches the stored hash, \<^verbatim>\<open>updatePassword\<close> fails instead with ``New password must be
  different''. The store satisfies its uniqueness invariant.
\<close>

theorem resetPassword_same_password:
  fixes E :: "('s, 'p) collab" and pw :: string and salt :: nat
  assumes "wf_store db" and "findOne (\<lambda>r. id_user r = i) db = Some u"
    and "version (credentials u) = v"
  defines "u' \<equiv> u\<lparr>credentials := (credentials u)\<lparr>version := v + 1, lastPassword := password u\<rparr>,
                   password := hash E pw 10 salt\<rparr>"
  shows "resetPassword E db i v pw salt =
           (Inr u', db\<lparr>rows := map (\<lambda>r. if id_user r = i then u' else r) (rows db)\<rparr>)
    \<and> (compare E old (password u) \<and> compare E pw (password u) \<longrightarrow>
          updatePassword E db i old pw salt =
            (Inl (BadRequestException ''New password must be different''), db))"
proof -
  have save: "saveEntity db u' False =
      Inr (u', db\<lparr>rows := map (\<lambda>r. if id_user r = i then u' else r) (rows db)\<rparr>)"
    by (rule saveEntity_managed [OF assms(1,2)]) (simp_all add: u'_def)
  have reset: "resetPassword E db i v pw salt =
      (Inr u', db\<lparr>rows := map (\<lambda>r. if id_user r = i then u' else r) (rows db)\<rparr>)"
    using save assms(3)
    by (simp add: resetPassword_def findOneByCredentials_found [OF assms(2,3)]
        updatePassword_credentials_def u'_def)
  have upd: "compare E old (password u) \<Longrightarrow> compare E pw (password u) \<Longrightarrow>
      updatePassword E db i old pw salt =
        (Inl (BadRequestException ''New password must be different''), db)"
    by (simp add: updatePassword_def findOneById_found [OF assms(2)])
  show ?thesis
    using reset upd by simp
qed

theorem resetPassword_same_password_witness:
  "wf_store ann_store \<and> findOne (\<lambda>r. id_user r = 1) ann_store = Some ann
   \<and> version (credentials ann) = 0
   \<and> compare demo_collab ''secret'' (password ann)
   \<and> resetPassword demo_collab ann_store 1 0 ''secret'' 9 =
       (Inr (ann\<lparr>credentials := \<lparr>version = 1, lastPassword = ''7:secret''\<rparr>,
                  password := ''9:secret''\<rparr>),
        \<lparr>rows = [ann\<lparr>credentials := \<lparr>version = 1, lastPassword = ''7:secret''\<rparr>,
                      password := ''9:secret''\<rparr>], nextId = 2\<rparr>)
   \<and> updatePassword demo_collab ann_store 1 ''secret'' ''secret'' 9 =
       (Inl (BadRequestException ''New password must be different''), ann_store)"
proof -
  have v: "version (credentials ann) = 0"
    by (simp add: ann_def)
  have rows: "rows ann_store = [ann]" "id_user ann = 1"
    "credentials ann = \<lparr>version = 0, lastPassword = []\<rparr>" "password ann = ''7:secret''"
    by (simp_all add: ann_store_def ann_def)
  have st: "ann_store\<lparr>rows := xs\<rparr> = \<lparr>rows = xs, nextId = 2\<rparr>" for xs
    by (simp add: ann_store_def)
  show ?thesis
    using wf_ann_store findOne_ann v compare_ann(1) hash_secret
      resetPassword_same_password [OF wf_ann_store findOne_ann v,
        where E = demo_collab and pw = "''secret''" and salt = 9 and old = "''secret''"]
    by (simp add: rows st)
qed

subsection \<open>Confirming the email\<close>

lemma saveEntity_False_InrD:
  "saveEntity db e False = Inr (saved, db') \<Longrightarrow>
     saved = e \<and> db' = db\<lparr>rows := map (\<lambda>r. if id_user r = id_user e then e else r) (rows db)\<rparr>"
  by (auto simp: saveEntity_def split: if_splits)

lemma confirm_ann:
  "confirmEmail ann_store 1 0 =
     (Inr (ann\<lparr>confirmed := True, credentials := \<lparr>version = 1, lastPassword = []\<rparr>\<rparr>),
      \<lparr>rows = [ann\<lparr>confirmed := True, credentials := \<lparr>version = 1, lastPassword = []\<rparr>\<rparr>],
       nextId = 2\<rparr>)"
  by code_simp

text \<open>
  Claim C5, as amended. \<^verbatim>\<open>confirmEmail\<close> is not idempotent. After a successful
  \<^verbatim>\<open>confirmEmail(id, v)\<close> the account is confirmed and its credentials version is
  \<open>v + 1\<close>; a second call then fails for every version it supplies and leaves the store
  as it is: with the bad-request error ``Email already confirmed'' when it supplies the
  new version \<open>v + 1\<close>, and with the unauthorized error ``Invalid credentials'' when it
  supplies any other version, the version \<open>v\<close> of the first call among them.
\<close>

theorem confirmEmail_second_call:
  assumes "confirmEmail db i v = (Inr u', db')"
  shows "confirmed u' \<and> version (credentials u') = v + 1
    \<and> confirmEmail db' i v' =
        (if v' = v + 1 then Inl (BadRequestException ''Email already confirmed'')
         else Inl (UnauthorizedException ''Invalid credentials''), db')"
proof -
  from assms obtain u where cred: "findOneByCredentials db i v = Inr u"
    by (auto simp: confirmEmail_def split: sum.splits)
  from findOneByCredentials_InrD [OF cred]
  have found: "findOne (\<lambda>r. id_user r = i) db = Some u" and v: "version (credentials u) = v"
    by simp_all
  from findOne_SomeD [OF found] have idu: "id_user u = i"
    by simp
  define e where "e = u\<lparr>confirmed := True, credentials := updateVersion (credentials u)\<rparr>"
  from assms cred have saved: "saveEntity db e False = Inr (u', db')"
    by (auto simp: confirmEmail_def e_def split: if_splits sum.splits)
  from saveEntity_False_InrD [OF saved] idu
  have u': "u' = e" and db': "db' = db\<lparr>rows := map (\<lambda>r. if id_user r = i then e else r) (rows db)\<rparr>"
    by (simp_all add: e_def)
  have ide: "id_user e = i"
    using idu by (simp add: e_def)
  have found': "findOne (\<lambda>r. id_user r = i) db' = Some u'"
    unfolding db' u' by (rule findOne_replace [OF found ide])
  have conf: "confirmed u'" and ver: "version (credentials u') = v + 1"
    using v by (simp_all add: u' e_def updateVersion_def)
  have "confirmEmail db' i v' =
        (if v' = v + 1 then Inl (BadRequestException ''Email already confirmed'')
         else Inl (UnauthorizedException ''Invalid credentials''), db')"
    using found' conf ver
    by (simp add: confirmEmail_def findOneByCredentials_def throwUnauthorizedException_def)
  with conf ver show ?thesis by simp
qed

theorem confirmEmail_second_call_witness:
  "confirmEmail ann_store 1 0 =
     (Inr (ann\<lparr>confirmed := True, credentials := \<lparr>version = 1, lastPassword = []\<rparr>\<rparr>),
      \<lparr>rows = [ann\<lparr>confirmed := True, credentials := \<lparr>version = 1, lastPassword = []\<rparr>\<rparr>],
       nextId = 2\<rparr>)
   \<and> confirmEmail
        \<lparr>rows = [ann\<lparr>confirmed := True, credentials := \<lparr>version = 1, lastPassword = []\<rparr>\<rparr>],
         nextId = 2\<rparr> 1 1 =
       (Inl (BadRequestException ''Email already confirmed''),
        \<lparr>rows = [ann\<lparr>confirmed := True, credentials := \<lparr>version = 1, lastPassword = []\<rparr>\<rparr>],
         nextId = 2\<rparr>)
   \<and> confirmEmail
        \<lparr>rows = [ann\<lparr>confirmed := True, credentials := \<lparr>version = 1, lastPassword = []\<rparr>\<rparr>],
         nextId = 2\<rparr> 1 0 =
       (Inl (UnauthorizedException ''Invalid credentials''),
        \<lparr>rows = [ann\<lparr>confirmed := True, credentials := \<lparr>version = 1, lastPassword = []\<rparr>\<rparr>],
         nextId = 2\<rparr>)"
  using confirm_ann confirmEmail_second_call [OF confirm_ann, of 1]
    confirmEmail_second_call [OF confirm_ann, of 0]
  by simp

text \<open>The claim as it was stated fails when the first call is repeated as it is: Ann's
  confirmation with version 0 succeeds, and the same call again is refused as
  unauthorized, not as a bad request.\<close>

theorem confirmEmail_replay_counterexample:
  "fst (confirmEmail ann_store 1 0) =
     Inr (ann\<lparr>confirmed := True, credentials := \<lparr>version = 1, lastPassword = []\<rparr>\<rparr>)
   \<and> fst (confirmEmail (snd (confirmEmail ann_store 1 0)) 1 0) =
       Inl (UnauthorizedException ''Invalid credentials'')
   \<and> fst (confirmEmail (snd (confirmEmail ann_store 1 0)) 1 0) \<noteq>
       Inl (BadRequestException ''Email already confirmed'')"
  by code_simp

subsection \<open>Changing the email\<close>

lemma checkEmailUniqueness_iff:
  "checkEmailUniqueness db e =
     (if \<exists>r \<in> set (rows db). email r = e
      then Inl (ConflictException ''Email already in use'') else Inr ())"
  by (auto simp: checkEmailUniqueness_def count_rows_def filter_empty_conv)

text \<open>
  Claim C6. For an existing user, \<^verbatim>\<open>updateEmail(id, {email, password})\<close> applies its
  checks in this order: it fails with the bad-request error ``Wrong password'' if the
  password does not match the stored hash; otherwise with the bad-request error ``Email
  should be different'' if the new email in lower case is the stored one; otherwise with
  the conflict error ``Email already in use'' if another account holds it; otherwise it
  stores the new email in lower case and succeeds. Lower case is what the runtime's
  \<^verbatim>\<open>toLowerCase\<close> computes, whatever that is. The store satisfies its uniqueness invariant.
\<close>

theorem updateEmail_order:
  fixes E :: "('s, 'p) collab" and em :: string
  assumes "wf_store db" and "findOne (\<lambda>r. id_user r = i) db = Some u"
  defines "u' \<equiv> u\<lparr>email := toLowerCase E em\<rparr>"
  shows "updateEmail E db i em pw =
     (if \<not> compare E pw (password u)
      then (Inl (BadRequestException ''Wrong password''), db)
      else if toLowerCase E em = email u
      then (Inl (BadRequestException ''Email should be different''), db)
      else if \<exists>r \<in> set (rows db). id_user r \<noteq> i \<and> email r = toLowerCase E em
      then (Inl (ConflictException ''Email already in use''), db)
      else (Inr u', db\<lparr>rows := map (\<lambda>r. if id_user r = i then u' else r) (rows db)\<rparr>))"
proof -
  have byid: "findOneById db i = Inr u"
    using assms(2) by (rule findOneById_found)
  from findOne_SomeD [OF assms(2)] have mem: "u \<in> set (rows db)" and idu: "id_user u = i"
    by simp_all
  have other: "(\<exists>r \<in> set (rows db). email r = toLowerCase E em)
      \<longleftrightarrow> (\<exists>r \<in> set (rows db). id_user r \<noteq> i \<and> email r = toLowerCase E em)"
    if "toLowerCase E em \<noteq> email u"
    using that wf_store_id_inj [OF assms(1) _ mem] idu by metis
  have save: "saveEntity db u' False =
      Inr (u', db\<lparr>rows := map (\<lambda>r. if id_user r = i then u' else r) (rows db)\<rparr>)"
    if "\<not> (\<exists>r \<in> set (rows db). email r = toLowerCase E em)"
    using that by (intro saveEntity_managed [OF assms(1,2)]) (simp_all add: u'_def)
  show ?thesis
  proof (cases "compare E pw (password u)")
    case False
    then show ?thesis by (simp add: updateEmail_def byid)
  next
    case pw: True
    show ?thesis
    proof (cases "toLowerCase E em = email u")
      case True
      with pw show ?thesis by (simp add: updateEmail_def byid)
    next
      case differs: False
      show ?thesis
      proof (cases "\<exists>r \<in> set (rows db). email r = toLowerCase E em")
        case True
        with pw differs other [OF differs] show ?thesis
          by (auto simp: updateEmail_def byid checkEmailUniqueness_iff)
      next
        case False
        with pw differs other [OF differs] save [OF False] show ?thesis
          by (auto simp: updateEmail_def byid checkEmailUniqueness_iff u'_def)
      qed
    qed
  qed
qed

theorem updateEmail_order_witness:
  "wf_store two_store \<and> findOne (\<lambda>r. id_user r = 1) two_store = Some ann
   \<and> updateEmail demo_collab two_store 1 ''New@X.com'' ''guess'' =
       (Inl (BadRequestException ''Wrong password''), two_store)
   \<and> updateEmail demo_collab two_store 1 ''ANN@x.com'' ''secret'' =
       (Inl (BadRequestException ''Email should be different''), two_store)
   \<and> updateEmail demo_collab two_store 1 ''Bob@X.com'' ''secret'' =
       (Inl (ConflictException ''Email already in use''), two_store)
   \<and> updateEmail demo_collab two_store 1 ''New@X.com'' ''secret'' =
       (Inr (ann\<lparr>email := ''new@x.com''\<rparr>),
        \<lparr>rows = [ann\<lparr>email := ''new@x.com''\<rparr>, bob], nextId = 3\<rparr>)"
proof -
  have rows: "rows two_store = [ann, bob]" "id_user ann = 1" "id_user bob = 2"
    "email ann = ''ann@x.com''" "email bob = ''bob@x.com''"
    by (simp_all add: two_store_def ann_def bob_def)
  have st: "two_store\<lparr>rows := xs\<rparr> = \<lparr>rows = xs, nextId = 3\<rparr>" for xs
    by (simp add: two_store_def)
  show ?thesis
    using wf_two_store findOne_two_store(1) compare_ann
      updateEmail_order [OF wf_two_store findOne_two_store(1),
        where E = demo_collab and em = "''New@X.com''" and pw = "''guess''"]
      updateEmail_order [OF wf_two_store findOne_two_store(1),
        where E = demo_collab and em = "''ANN@x.com''" and pw = "''secret''"]
      updateEmail_order [OF wf_two_store findOne_two_store(1),
        where E = demo_collab and em = "''Bob@X.com''" and pw = "''secret''"]
      updateEmail_order [OF wf_two_store findOne_two_store(1),
        where E = demo_collab and em = "''New@X.com''" and pw = "''secret''"]
    by (simp add: rows st lower_examples)
qed

subsection \<open>The online status\<close>

lemma sessions_demo: "has_session demo_cache 1" "\<not> has_session demo_cache 2" "\<not> has_session demo_cache 3"
  by code_simp+

text \<open>
  Claim C7. \<^verbatim>\<open>updateOnlineStatus(id, status)\<close> always stores the status in the default
  status of the user, and writes it to the online status only when the cache holds a
  session entry under the key \<^verbatim>\<open>sessions:<id>\<close>; with no such entry the online status
  stays as it was. The user exists and the store satisfies its uniqueness invariant.
\<close>

theorem updateOnlineStatus_session:
  fixes cacheManager :: "'d cache" and status :: 's and u :: "('s, 'p) user"
  assumes "wf_store db" and "findOne (\<lambda>r. id_user r = i) db = Some u"
  defines "u' \<equiv> u\<lparr>defaultStatus := status,
                   onlineStatus := (if has_session cacheManager i then status else onlineStatus u)\<rparr>"
  shows "updateOnlineStatus cacheManager db i status =
           (Inr u', db\<lparr>rows := map (\<lambda>r. if id_user r = i then u' else r) (rows db)\<rparr>)
    \<and> findOne (\<lambda>r. id_user r = i) (snd (updateOnlineStatus cacheManager db i status)) = Some u'
    \<and> defaultStatus u' = status
    \<and> (has_session cacheManager i \<longrightarrow> onlineStatus u' = status)
    \<and> (\<not> has_session cacheManager i \<longrightarrow> onlineStatus u' = onlineStatus u)"
proof -
  have byid: "findOneById db i = Inr u"
    using assms(2) by (rule findOneById_found)
  have idu: "id_user u' = i"
    using findOne_SomeD [OF assms(2)] by (simp add: u'_def)
  have save: "saveEntity db u' False =
      Inr (u', db\<lparr>rows := map (\<lambda>r. if id_user r = i then u' else r) (rows db)\<rparr>)"
    by (rule saveEntity_managed [OF assms(1,2)]) (simp_all add: u'_def)
  have sess: "has_session cacheManager i \<longleftrightarrow>
      \<not> isUndefined (cacheManager (''sessions:'' @ show_int i))
      \<and> \<not> isNull (cacheManager (''sessions:'' @ show_int i))"
    by (simp add: has_session_def isUndefined_def isNull_def split: cached.splits)
  have run: "updateOnlineStatus cacheManager db i status =
      (Inr u', db\<lparr>rows := map (\<lambda>r. if id_user r = i then u' else r) (rows db)\<rparr>)"
  proof (cases "has_session cacheManager i")
    case True
    with save sess show ?thesis
      by (simp add: updateOnlineStatus_def byid u'_def)
  next
    case False
    with save sess show ?thesis
      by (auto simp: updateOnlineStatus_def byid u'_def)
  qed
  show ?thesis
    using run findOne_replace [OF assms(2) idu] by (simp add: u'_def)
qed

theorem updateOnlineStatus_session_witness:
  "wf_store two_store
   \<and> findOne (\<lambda>r. id_user r = 1) two_store = Some ann \<and> has_session demo_cache 1
   \<and> updateOnlineStatus demo_cache two_store 1 ''busy'' =
       (Inr (ann\<lparr>defaultStatus := ''busy'', onlineStatus := ''busy''\<rparr>),
        \<lparr>rows = [ann\<lparr>defaultStatus := ''busy'', onlineStatus := ''busy''\<rparr>, bob], nextId = 3\<rparr>)
   \<and> findOne (\<lambda>r. id_user r = 2) two_store = Some bob \<and> \<not> has_session demo_cache 2
   \<and> updateOnlineStatus demo_cache two_store 2 ''busy'' =
       (Inr (bob\<lparr>defaultStatus := ''busy''\<rparr>),
        \<lparr>rows = [ann, bob\<lparr>defaultStatus := ''busy''\<rparr>], nextId = 3\<rparr>)"
proof -
  have rows: "rows two_store = [ann, bob]" "id_user ann = 1" "id_user bob = 2"
    "onlineStatus bob = ''offline''"
    by (simp_all add: two_store_def ann_def bob_def)
  have st: "two_store\<lparr>rows := xs\<rparr> = \<lparr>rows = xs, nextId = 3\<rparr>" for xs
    by (simp add: two_store_def)
  have same: "bob\<lparr>defaultStatus := ''busy'', onlineStatus := ''offline''\<rparr> = bob\<lparr>defaultStatus := ''busy''\<rparr>"
    by (simp add: bob_def)
  show ?thesis
    using wf_two_store findOne_two_store sessions_demo
      updateOnlineStatus_session [OF wf_two_store findOne_two_store(1),
        where cacheManager = demo_cache and status = "''busy''"]
      updateOnlineStatus_session [OF wf_two_store findOne_two_store(2),
        where cacheManager = demo_cache and status = "''busy''"]
    by (simp add: rows st same)
qed

subsection \<open>Registration\<close>

lemma create_InrD:
  assumes "create E db em nm pr pw salt = (Inr u, db')"
  shows "\<not> (\<exists>r \<in> set (rows db). email r = toLowerCase E em)"
    and "u = (newEntity E)\<lparr>id_user := nextId db, email := toLowerCase E em, name := formatTitle E nm,
               username := generateUsername E db (formatTitle E nm), authProviders := [pr],
               password := (case pw of None \<Rightarrow> ''UNSET'' | Some p \<Rightarrow> hash E p 10 salt)\<rparr>"
    and "db' = db\<lparr>rows := rows db @ [u], nextId := nextId db + 1\<rparr>"
  using assms
  by (auto simp: create_def checkEmailUniqueness_iff saveEntity_def Let_def
      split: if_splits sum.splits)

lemma find_append_fresh:
  "\<forall>r \<in> set xs. \<not> w r \<Longrightarrow> w u \<Longrightarrow> find w (xs @ [u]) = Some u"
  by (induction xs) auto

text \<open>
  Claim C4. \<^verbatim>\<open>create\<close> puts the email in lower case before the uniqueness check and
  before storing it: a successful call stores the user under the lower-case email, and a
  call whose lower-case email a row already holds fails with the conflict error ``Email
  already in use'' and leaves the store as it is. So does a second \<^verbatim>\<open>create\<close> whose email
  is the first one up to case, that is, has the same lower-case form. Lower case is what
  the runtime's \<^verbatim>\<open>toLowerCase\<close> computes, whatever that is.
\<close>

theorem create_email_conflict:
  "(create E db em nm pr pw salt = (Inr u, db') \<longrightarrow>
      email u = toLowerCase E em
      \<and> findOne (\<lambda>r. email r = toLowerCase E em) db' = Some u
      \<and> (toLowerCase E em' = toLowerCase E em \<longrightarrow>
           create E db' em' nm' pr' pw' salt' = (Inl (ConflictException ''Email already in use''), db')))
   \<and> ((\<exists>r \<in> set (rows db). email r = toLowerCase E em) \<longrightarrow>
        create E db em nm pr pw salt = (Inl (ConflictException ''Email already in use''), db))"
proof -
  have conflict: "create E db em nm pr pw salt = (Inl (ConflictException ''Email already in use''), db)"
    if "\<exists>r \<in> set (rows db). email r = toLowerCase E em" for db :: "('a, 'b) store" and em nm pr pw salt
    using that by (simp add: create_def checkEmailUniqueness_iff)
  have stored: "email u = toLowerCase E em
      \<and> findOne (\<lambda>r. email r = toLowerCase E em) db' = Some u
      \<and> (toLowerCase E em' = toLowerCase E em \<longrightarrow>
           create E db' em' nm' pr' pw' salt' = (Inl (ConflictException ''Email already in use''), db'))"
    if c: "create E db em nm pr pw salt = (Inr u, db')"
  proof -
    note d = create_InrD [OF c]
    have mail: "email u = toLowerCase E em"
      by (simp add: d(2))
    have "find (\<lambda>r. email r = toLowerCase E em) (rows db @ [u]) = Some u"
      using d(1) mail by (intro find_append_fresh) auto
    then have found: "findOne (\<lambda>r. email r = toLowerCase E em) db' = Some u"
      by (simp add: findOne_def d(3))
    have "\<exists>r \<in> set (rows db'). email r = toLowerCase E em'" if "toLowerCase E em' = toLowerCase E em"
      using that mail by (auto simp: d(3))
    from conflict [OF this] mail found show ?thesis
      by simp
  qed
  show ?thesis
    using conflict stored by blast
qed

theorem create_email_conflict_witness:
  "create demo_collab empty_store ''Ann@X.com'' ''Ann'' ''local'' (Some ''secret'') 7
     = (Inr ann, ann_store)
   \<and> email ann = ''ann@x.com''
   \<and> toLowerCase demo_collab ''ANN@x.com'' = toLowerCase demo_collab ''Ann@X.com''
   \<and> create demo_collab ann_store ''ANN@x.com'' ''Bob'' ''google'' None 8
     = (Inl (ConflictException ''Email already in use''), ann_store)"
proof -
  have low: "toLowerCase demo_collab ''Ann@X.com'' = ''ann@x.com''"
    by code_simp
  show ?thesis
    using create_ann low lower_examples(2)
      create_email_conflict [where E = demo_collab and db = empty_store and em = "''Ann@X.com''"
        and nm = "''Ann''" and pr = "''local''" and pw = "Some ''secret''" and salt = 7
        and u = ann and db' = ann_store and em' = "''ANN@x.com''" and nm' = "''Bob''"
        and pr' = "''google''" and pw' = None and salt' = 8]
    by simp
qed

subsection \<open>Accounts without a password\<close>

text \<open>
  Claim C8. A user created without a password has the sentinel \<^verbatim>\<open>UNSET\<close> as stored
  password. As bcrypt's comparison against the sentinel never succeeds, each operation
  gated by the password (\<^verbatim>\<open>updatePassword\<close>, \<^verbatim>\<open>updateEmail\<close>, \<^verbatim>\<open>delete\<close>) fails on such a
  user with the bad-request error ``Wrong password'' for every password supplied, and
  leaves the store as it is.
\<close>

theorem unset_password_gates:
  fixes E :: "('s, 'p) collab"
  assumes "\<forall>p. \<not> compare E p ''UNSET''"
  shows "(findOne (\<lambda>r. id_user r = i) db = Some u \<and> password u = ''UNSET'' \<longrightarrow>
            updatePassword E db i p new salt = (Inl (BadRequestException ''Wrong password''), db)
          \<and> updateEmail E db i em p = (Inl (BadRequestException ''Wrong password''), db)
          \<and> delete_user E db i p = (Inl (BadRequestException ''Wrong password''), db))
    \<and> (wf_store pre \<and> create E pre cem cnm cpr None csalt = (Inr made, post) \<longrightarrow>
          password made = ''UNSET''
          \<and> findOne (\<lambda>r. id_user r = id_user made) post = Some made
          \<and> updatePassword E post (id_user made) p new salt =
              (Inl (BadRequestException ''Wrong password''), post)
          \<and> updateEmail E post (id_user made) em p =
              (Inl (BadRequestException ''Wrong password''), post)
          \<and> delete_user E post (id_user made) p =
              (Inl (BadRequestException ''Wrong password''), post))"
proof -
  have gates: "updatePassword E db i p new salt = (Inl (BadRequestException ''Wrong password''), db)
          \<and> updateEmail E db i em p = (Inl (BadRequestException ''Wrong password''), db)
          \<and> delete_user E db i p = (Inl (BadRequestException ''Wrong password''), db)"
    if "findOne (\<lambda>r. id_user r = i) db = Some u" and "password u = ''UNSET''"
    for db :: "('s, 'p) store" and i u
    using assms that(2)
    by (simp add: updatePassword_def updateEmail_def delete_user_def findOneById_found [OF that(1)])
  have created: "password made = ''UNSET''
      \<and> findOne (\<lambda>r. id_user r = id_user made) post = Some made"
    if wf: "wf_store pre" and c: "create E pre cem cnm cpr None csalt = (Inr made, post)"
  proof -
    note d = create_InrD [OF c]
    have idu: "id_user made = nextId pre" and pw: "password made = ''UNSET''"
      by (simp_all add: d(2))
    have fresh: "\<forall>r \<in> set (rows pre). \<not> id_user r = id_user made"
      using wf idu by (auto simp: wf_store_def list_all_iff)
    have "find (\<lambda>r. id_user r = id_user made) (rows pre @ [made]) = Some made"
      by (rule find_append_fresh [OF fresh]) simp
    then have "findOne (\<lambda>r. id_user r = id_user made) post = Some made"
      by (simp add: findOne_def d(3))
    with pw show ?thesis by simp
  qed
  show ?thesis
    using gates [of i db u] gates [of "id_user made" post made] created by blast
qed

theorem unset_password_gates_witness:
  "(\<forall>p. \<not> compare demo_collab p ''UNSET'')
   \<and> wf_store ann_store
   \<and> create demo_collab ann_store ''Bob@x.com'' ''Bob'' ''google'' None 8 = (Inr bob, two_store)
   \<and> findOne (\<lambda>r. id_user r = 2) two_store = Some bob \<and> password bob = ''UNSET''
   \<and> updatePassword demo_collab two_store 2 ''UNSET'' ''fresh'' 9 =
       (Inl (BadRequestException ''Wrong password''), two_store)
   \<and> updateEmail demo_collab two_store 2 ''New@X.com'' ''UNSET'' =
       (Inl (BadRequestException ''Wrong password''), two_store)
   \<and> delete_user demo_collab two_store 2 ''UNSET'' =
       (Inl (BadRequestException ''Wrong password''), two_store)"
proof -
  have never: "\<forall>p. \<not> compare demo_collab p ''UNSET''"
    by (simp add: demo_collab_def)
  have pw: "password bob = ''UNSET''" and idb: "id_user bob = 2"
    by (simp_all add: bob_def)
  show ?thesis
    using never pw idb findOne_two_store(2) wf_ann_store create_bob
      unset_password_gates [OF never, where i = 2 and db = two_store and u = bob
        and p = "''UNSET''" and new = "''fresh''" and salt = 9 and em = "''New@X.com''"
        and pre = ann_store and cem = "''Bob@x.com''" and cnm = "''Bob''"
        and cpr = "''google''" and csalt = 8 and made = bob and post = two_store]
    by simp
qed

subsection \<open>Changing the name\<close>

lemma generate_ann:
  "generateUsername demo_collab two_store ''Ann'' = ''ann1''"
  by code_simp

text \<open>
  What \<^verbatim>\<open>updateName(id, name)\<close> does to an existing user. It builds the user whose name is
  the formatted name and whose username is the one \<^verbatim>\<open>generateUsername\<close> derives from the
  formatted name on the current store, every other field being as before. It stores that
  user, every other row being as before, unless the storage layer refuses the username;
  then it fails and leaves the store as it is. On a store that satisfies its uniqueness
  invariant it succeeds exactly when no other row holds the generated username.
\<close>

lemma updateName_frame:
  fixes E :: "('s, 'p) collab" and nm :: string and u :: "('s, 'p) user"
  assumes "findOne (\<lambda>r. id_user r = i) db = Some u"
  defines "u' \<equiv> u\<lparr>name := formatTitle E nm,
                   username := generateUsername E db (formatTitle E nm)\<rparr>"
  shows "(updateName E db i nm =
            (Inr u', db\<lparr>rows := map (\<lambda>r. if id_user r = i then u' else r) (rows db)\<rparr>)
          \<or> updateName E db i nm = (Inl UniqueConstraintViolation, db))
    \<and> credentials u' = credentials u \<and> id_user u' = id_user u \<and> email u' = email u
    \<and> password u' = password u \<and> confirmed u' = confirmed u
    \<and> onlineStatus u' = onlineStatus u \<and> defaultStatus u' = defaultStatus u
    \<and> authProviders u' = authProviders u \<and> picture u' = picture u
    \<and> (wf_store db \<longrightarrow>
         ((\<exists>saved db'. updateName E db i nm = (Inr saved, db'))
            \<longleftrightarrow> (\<forall>r \<in> set (rows db). id_user r \<noteq> i \<longrightarrow> username r \<noteq> username u')))"
proof -
  have byid: "findOneById db i = Inr u"
    using assms(1) by (rule findOneById_found)
  from findOne_SomeD [OF assms(1)] have mem: "u \<in> set (rows db)" and idu: "id_user u = i"
    by simp_all
  have idu': "id_user u' = i"
    using idu by (simp add: u'_def)
  have run: "updateName E db i nm =
      (if unique_ok u' (filter (\<lambda>r. id_user r \<noteq> i) (rows db))
       then (Inr u', db\<lparr>rows := map (\<lambda>r. if id_user r = i then u' else r) (rows db)\<rparr>)
       else (Inl UniqueConstraintViolation, db))"
    using idu by (simp add: updateName_def byid saveEntity_def u'_def Let_def)
  have mail: "email r \<noteq> email u'"
    if "wf_store db" and "r \<in> set (rows db)" and "id_user r \<noteq> i" for r
    using wf_store_email_inj [OF that(1,2) mem] that(3) idu by (auto simp: u'_def)
  have ok: "unique_ok u' (filter (\<lambda>r. id_user r \<noteq> i) (rows db))
      \<longleftrightarrow> (\<forall>r \<in> set (rows db). id_user r \<noteq> i \<longrightarrow> username r \<noteq> username u')"
    if "wf_store db"
    using mail [OF that] by (auto simp: unique_ok_iff)
  have frame: "credentials u' = credentials u \<and> id_user u' = id_user u \<and> email u' = email u
    \<and> password u' = password u \<and> confirmed u' = confirmed u
    \<and> onlineStatus u' = onlineStatus u \<and> defaultStatus u' = defaultStatus u
    \<and> authProviders u' = authProviders u \<and> picture u' = picture u"
    by (simp add: u'_def)
  have succ: "(\<exists>saved db'. updateName E db i nm = (Inr saved, db'))
      \<longleftrightarrow> (\<forall>r \<in> set (rows db). id_user r \<noteq> i \<longrightarrow> username r \<noteq> username u')"
    if "wf_store db"
    using ok [OF that] by (simp add: run)
  have alt: "updateName E db i nm =
            (Inr u', db\<lparr>rows := map (\<lambda>r. if id_user r = i then u' else r) (rows db)\<rparr>)
          \<or> updateName E db i nm = (Inl UniqueConstraintViolation, db)"
    by (simp add: run)
  show ?thesis
    using alt frame succ by blast
qed

lemma updateName_ann:
  "findOne (\<lambda>r. id_user r = 1) two_store = Some ann \<and> wf_store two_store
   \<and> updateName demo_collab two_store 1 ''Ann'' =
       (Inr (ann\<lparr>name := ''Ann'', username := ''ann1''\<rparr>),
        \<lparr>rows = [ann\<lparr>name := ''Ann'', username := ''ann1''\<rparr>, bob], nextId = 3\<rparr>)"
proof -
  have rows: "rows two_store = [ann, bob]" "id_user ann = 1" "id_user bob = 2"
    "username bob = ''bob''" "formatTitle demo_collab ''Ann'' = ''Ann''"
    by (simp_all add: two_store_def ann_def bob_def demo_collab_def)
  have st: "two_store\<lparr>rows := xs\<rparr> = \<lparr>rows = xs, nextId = 3\<rparr>" for xs
    by (simp add: two_store_def)
  show ?thesis
    using findOne_two_store(1) wf_two_store generate_ann
      updateName_frame [OF findOne_two_store(1), where E = demo_collab and nm = "''Ann''"]
    by (auto simp: rows st)
qed

lemma carl_store_reached:
  "create demo_collab ann_store ''ann2@x.com'' ''Ann'' ''local'' None 0
     = (Inr ann_second, two_anns_store)"
  "create demo_collab two_anns_store ''carl@x.com'' ''Carl'' ''local'' None 0
     = (Inr carl, two_anns_carl_store)"
  "delete_user demo_collab two_anns_carl_store 1 ''secret'' = (Inr ann, carl_store)"
  "wf_store carl_store"
  by code_simp+

text \<open>
  Claim C10. \<^verbatim>\<open>updateName(id, name)\<close> sets the name of the user to the formatted name and
  replaces the username with a freshly generated one, every other field being unchanged.
  The code does not do so on the store that holds the second Ann, under the username
  \<^verbatim>\<open>ann1\<close>, and Carl, a store the service reaches and that satisfies the uniqueness
  invariant: for \<^verbatim>\<open>updateName(3, 'Ann')\<close> one username matches \<^verbatim>\<open>ann%\<close>, so
  \<^verbatim>\<open>generateUsername\<close> returns \<^verbatim>\<open>ann1\<close>, which the second Ann holds; the save is refused,
  and Carl keeps his name and his username.
\<close>

theorem updateName_generated_username_taken:
  "findOne (\<lambda>r. id_user r = 3) carl_store = Some carl
   \<and> count_rows (username_like demo_collab ''ann'') carl_store = 1
   \<and> generateUsername demo_collab carl_store (formatTitle demo_collab ''Ann'') = ''ann1''
   \<and> username ann_second = ''ann1''
   \<and> updateName demo_collab carl_store 3 ''Ann'' = (Inl UniqueConstraintViolation, carl_store)
   \<and> name carl = ''Carl'' \<and> username carl = ''carl''"
  by code_simp

subsection \<open>Generated usernames\<close>

text \<open>
  Claim C3. In a sequence of \<^verbatim>\<open>create\<close> calls, the users whose names have the same point
  slug receive distinct usernames, the first of them the slug itself and the Nth the slug
  followed by \<open>N - 1\<close>. The code does not do so when a username derived from another slug
  matches the pattern made of the slug and a percent sign. After the registration of
  Anna, the first user named Ann is counted as a collision, though nobody holds \<^verbatim>\<open>ann\<close>,
  and is given \<^verbatim>\<open>ann1\<close>. After the registration of a user named Ann1, the first user
  named Ann is given the username \<^verbatim>\<open>ann1\<close> that is already held, and the registration
  fails on the unique username column.
\<close>

theorem generateUsername_counts_other_slugs:
  "map (slug_of demo_collab) anna_then_ann = [''anna'', ''ann'']
   \<and> map (map_sum id username) (fst (create_all demo_collab empty_store anna_then_ann))
       = [Inr ''anna'', Inr ''ann1'']
   \<and> count_rows (\<lambda>r. username r = ''ann'') (snd (create_all demo_collab empty_store anna_then_ann))
       = 0
   \<and> map (slug_of demo_collab) ann1_then_ann = [''ann1'', ''ann'']
   \<and> map (map_sum id username) (fst (create_all demo_collab empty_store ann1_then_ann))
       = [Inr ''ann1'', Inl UniqueConstraintViolation]"
  by code_simp

end
